theory Spec2Isabelle
  imports Complex_Main
begin

section \<open>Values held by the form\<close>

text \<open>
  The form stores JavaScript values. The ones that can occur here are strings (the two
  text inputs), numbers and \<open>NaN\<close> (the number input registered with \<open>valueAsNumber\<close>),
  \<open>null\<close> (the default of \<open>age\<close>) and \<open>undefined\<close> (a key that is absent). A finite
  JavaScript number is modelled by the real it denotes; the only operation on it is the
  comparison with the bound of the schema. A string is the list of its characters; for
  the ASCII inputs considered here the length of the list is the length of the string.
\<close>

datatype jsval = JUndefined | JNull | JNaN | JNum real | JStr string

text \<open>The type tag the validation library computes for a value before it checks it.\<close>

datatype parsed_type = TUndefined | TNull | TNan | TNumber | TString

fun getParsedType :: "jsval \<Rightarrow> parsed_type" where
  "getParsedType JUndefined = TUndefined"
| "getParsedType JNull = TNull"
| "getParsedType JNaN = TNan"
| "getParsedType (JNum x) = TNumber"
| "getParsedType (JStr s) = TString"

section \<open>The schema (schema.ts)\<close>

text \<open>
  \<open>formSchema\<close> is a declarative object: a list of keys, each with a base type and a
  chain of checks carrying the declared message. It is embedded as the data it is, and
  interpreted by \<open>parse_issues\<close> below.
\<close>

datatype string_check = StrMin nat string | StrEmail string

datatype number_check = NumMin real string

datatype zod_type = ZString "string_check list" | ZNumber "number_check list"

definition formSchema :: "(string \<times> zod_type) list" where
  "formSchema =
     [(''name'', ZString [StrMin 2 ''Name too short'']),
      (''email'', ZString [StrEmail ''Invalid email'']),
      (''age'', ZNumber [NumMin 18 ''Must be at least 18''])]"

section \<open>The validation library\<close>

text \<open>
  The schema is checked by the validation library, which is not part of the repository.
  Two of its answers depend on its version and are taken as parameters: which strings it
  accepts as an e-mail address, and the text of the message it generates itself when a
  value has the wrong type (the schema declares no message for that case).
\<close>

record validation_library =
  is_email :: "string \<Rightarrow> bool"
  invalid_type_message :: "parsed_type \<Rightarrow> parsed_type \<Rightarrow> string"

text \<open>An issue as the form stores it: the library's issue code and the message.\<close>

datatype issue_code = invalid_type | too_small | invalid_string

record field_error =
  code :: issue_code
  message :: string

fun string_check_issues :: "validation_library \<Rightarrow> string \<Rightarrow> string_check \<Rightarrow> field_error list" where
  "string_check_issues L s (StrMin n msg) =
     (if length s < n then [\<lparr>code = too_small, message = msg\<rparr>] else [])"
| "string_check_issues L s (StrEmail msg) =
     (if is_email L s then [] else [\<lparr>code = invalid_string, message = msg\<rparr>])"

fun number_check_issues :: "real \<Rightarrow> number_check \<Rightarrow> field_error list" where
  "number_check_issues x (NumMin m msg) =
     (if x < m then [\<lparr>code = too_small, message = msg\<rparr>] else [])"

text \<open>
  Parsing one value: a value of the wrong type yields the single issue \<open>invalid_type\<close>
  and none of the checks runs; a value of the right type runs every check of the chain
  and collects their issues in declared order.
\<close>

definition parse_issues :: "validation_library \<Rightarrow> zod_type \<Rightarrow> jsval \<Rightarrow> field_error list" where
  "parse_issues L t v =
     (case t of
        ZString cs \<Rightarrow>
          (case v of
             JStr s \<Rightarrow> concat (map (string_check_issues L s) cs)
           | _ \<Rightarrow> [\<lparr>code = invalid_type,
                    message = invalid_type_message L TString (getParsedType v)\<rparr>])
      | ZNumber cs \<Rightarrow>
          (case v of
             JNum x \<Rightarrow> concat (map (number_check_issues x) cs)
           | _ \<Rightarrow> [\<lparr>code = invalid_type,
                    message = invalid_type_message L TNumber (getParsedType v)\<rparr>]))"

text \<open>
  The resolver (\<open>zodResolver(formSchema)\<close>) parses the whole values object and keeps, for
  each key, the first issue reported for it. On success it returns the parsed data: an
  object with exactly the keys of the schema.
\<close>

definition first_issue :: "validation_library \<Rightarrow> zod_type \<Rightarrow> jsval \<Rightarrow> field_error option" where
  "first_issue L t v = (case parse_issues L t v of [] \<Rightarrow> None | e # _ \<Rightarrow> Some e)"

definition resolver_errors ::
  "validation_library \<Rightarrow> (string \<times> zod_type) list \<Rightarrow> (string \<Rightarrow> jsval) \<Rightarrow> (string \<times> field_error) list" where
  "resolver_errors L shape vals =
     List.map_filter (\<lambda>(k, t). map_option (Pair k) (first_issue L t (vals k))) shape"

definition resolver_values ::
  "(string \<times> zod_type) list \<Rightarrow> (string \<Rightarrow> jsval) \<Rightarrow> (string \<times> jsval) list" where
  "resolver_values shape vals = map (\<lambda>(k, t). (k, vals k)) shape"

section \<open>The form state store\<close>

text \<open>
  \<open>useForm\<close> keeps one object of values and one of errors for the whole form, whatever
  step is shown: a step that is not rendered keeps its entries. A key that is absent
  reads as \<open>undefined\<close> in the values and as "no error" in the errors.
\<close>

record form_state =
  formValues :: "string \<Rightarrow> jsval"
  formErrors :: "string \<rightharpoonup> field_error"

definition defaultValues :: "string \<Rightarrow> jsval" where
  "defaultValues =
     (\<lambda>k. JUndefined)(''name'' := JStr '''', ''email'' := JStr '''', ''age'' := JNull)"

text \<open>
  Applying a validation result to a list of names: for each name, the stored error is
  set to the one reported for it, or removed when none is reported.
\<close>

definition apply_result ::
  "(string \<rightharpoonup> field_error) \<Rightarrow> string list \<Rightarrow> (string \<rightharpoonup> field_error) \<Rightarrow> (string \<rightharpoonup> field_error)" where
  "apply_result result names errs = fold (\<lambda>n e. e(n := result n)) names errs"

text \<open>
  \<open>methods.trigger(names)\<close>: the resolver runs on all the values; with a list of names
  only their error entries are overwritten and the answer is whether none of them has an
  error; with \<open>undefined\<close> the whole error object is replaced and the answer is whether
  it is empty.
\<close>

definition trigger ::
  "validation_library \<Rightarrow> string list option \<Rightarrow> form_state \<Rightarrow> bool \<times> form_state" where
  "trigger L names fs =
     (let result = resolver_errors L formSchema (formValues fs) in
      case names of
        None \<Rightarrow> (result = [], fs\<lparr>formErrors := map_of result\<rparr>)
      | Some ns \<Rightarrow>
          (\<not> list_ex (\<lambda>n. map_of result n \<noteq> None) ns,
           fs\<lparr>formErrors := apply_result (map_of result) ns (formErrors fs)\<rparr>))"

section \<open>The wizard (MultiStepForm)\<close>

text \<open>
  The component's state: the step index of \<open>useState(0)\<close> (a JavaScript number that only
  ever moves by one, hence an integer), the form store, and the effect of the
  submission handler, recorded as the list of data objects it was called with.
\<close>

record wizard =
  step :: int
  form :: form_state
  delivered :: "(string \<times> jsval) list list"

definition steps :: "string list" where
  "steps = [''Basic Info'', ''Contact'', ''Age'']"

definition fieldsPerStep :: "string list list" where
  "fieldsPerStep = [[''name''], [''email''], [''age'']]"

text \<open>Indexing an array: \<open>undefined\<close> outside its bounds.\<close>

definition array_index :: "'a list \<Rightarrow> int \<Rightarrow> 'a option" where
  "array_index xs i = (if 0 \<le> i \<and> i < int (length xs) then Some (xs ! nat i) else None)"

definition initial :: wizard where
  "initial = \<lparr>step = 0, form = \<lparr>formValues = defaultValues, formErrors = Map.empty\<rparr>,
              delivered = []\<rparr>"

definition onNext :: "validation_library \<Rightarrow> wizard \<Rightarrow> wizard" where
  "onNext L w =
     (let (valid, fs) = trigger L (array_index fieldsPerStep (step w)) (form w) in
      if valid then w\<lparr>form := fs, step := step w + 1\<rparr> else w\<lparr>form := fs\<rparr>)"

definition onBack :: "wizard \<Rightarrow> wizard" where
  "onBack w = w\<lparr>step := step w - 1\<rparr>"

text \<open>The submission handler logs the data and shows an alert: it is recorded.\<close>

definition onSubmit :: "(string \<times> jsval) list \<Rightarrow> wizard \<Rightarrow> wizard" where
  "onSubmit data w = w\<lparr>delivered := delivered w @ [data]\<rparr>"

text \<open>
  \<open>methods.handleSubmit(onSubmit)\<close>: the resolver runs on all the values, the error
  object is replaced by its result, and the handler is called with the parsed data when
  that result is empty.
\<close>

definition handleSubmit :: "validation_library \<Rightarrow> wizard \<Rightarrow> wizard" where
  "handleSubmit L w =
     (let result = resolver_errors L formSchema (formValues (form w));
          w' = w\<lparr>form := (form w)\<lparr>formErrors := map_of result\<rparr>\<rparr>
      in if result = [] then onSubmit (resolver_values formSchema (formValues (form w))) w'
         else w')"

subsection \<open>Editing a field\<close>

text \<open>
  Each step component registers one input. A change of the input stores the new value
  under the registered name; whether the library then validates that field depends on
  its validation mode (\<open>onTouched\<close>) and on whether the field was left before, which is
  the flag \<open>revalidate\<close>. Such a validation is \<open>trigger\<close> on that one name.
\<close>

definition onChange :: "validation_library \<Rightarrow> string \<Rightarrow> jsval \<Rightarrow> bool \<Rightarrow> wizard \<Rightarrow> wizard" where
  "onChange L name v revalidate w =
     (let fs = (form w)\<lparr>formValues := (formValues (form w))(name := v)\<rparr> in
      w\<lparr>form := (if revalidate then snd (trigger L (Some [name]) fs) else fs)\<rparr>)"

datatype input_element = TextInput string | NumberInput string

definition stepComponents :: "input_element list" where
  "stepComponents = [TextInput ''name'', TextInput ''email'', NumberInput ''age'']"

text \<open>
  \<open>valueAsNumber\<close>: an empty number input reads as \<open>NaN\<close>, any other content as the
  number it denotes.
\<close>

fun valueAsNumber :: "real option \<Rightarrow> jsval" where
  "valueAsNumber None = JNaN"
| "valueAsNumber (Some x) = JNum x"

subsection \<open>What the rendered form offers\<close>

text \<open>
  The events a user can cause. Back is rendered only while \<open>step > 0\<close>, Next only
  while \<open>step < steps.length - 1\<close>; the input shown is the one of the current step. The
  submit event belongs to the form element and is not restricted to a step here. An
  event the form does not offer has no successor state.
\<close>

datatype event =
  Next | Back | Submit | EditText string bool | EditNumber "real option" bool

fun fire :: "validation_library \<Rightarrow> event \<Rightarrow> wizard \<Rightarrow> wizard option" where
  "fire L Next w = (if step w < int (length steps) - 1 then Some (onNext L w) else None)"
| "fire L Back w = (if step w > 0 then Some (onBack w) else None)"
| "fire L Submit w = Some (handleSubmit L w)"
| "fire L (EditText s rv) w =
     (case array_index stepComponents (step w) of
        Some (TextInput name) \<Rightarrow> Some (onChange L name (JStr s) rv w)
      | _ \<Rightarrow> None)"
| "fire L (EditNumber x rv) w =
     (case array_index stepComponents (step w) of
        Some (NumberInput name) \<Rightarrow> Some (onChange L name (valueAsNumber x) rv w)
      | _ \<Rightarrow> None)"

fun run :: "validation_library \<Rightarrow> event list \<Rightarrow> wizard \<Rightarrow> wizard option" where
  "run L [] w = Some w"
| "run L (e # es) w = (case fire L e w of None \<Rightarrow> None | Some w' \<Rightarrow> run L es w')"

section \<open>An instance of the validation library\<close>

text \<open>
  The behaviour of version 3 of the library, used to evaluate the model on concrete
  inputs. Its e-mail pattern is
  \<^verbatim>\<open>^(?!\.)(?!.*\.\.)([A-Z0-9_'+\-\.]*)[A-Z0-9_+-]@([A-Z0-9][A-Z0-9\-]*\.)+[A-Z]{2,}$\<close>
  without regard to case, and its message for a value of the wrong type is
  "Required" for \<open>undefined\<close> and "Expected t, received r" otherwise.
\<close>

definition is_letter :: "char \<Rightarrow> bool" where
  "is_letter c = (List.member ''abcdefghijklmnopqrstuvwxyzABCDEFGHIJKLMNOPQRSTUVWXYZ'' c)"

definition is_alnum :: "char \<Rightarrow> bool" where
  "is_alnum c = (is_letter c \<or> List.member ''0123456789'' c)"

fun split_on :: "char \<Rightarrow> string \<Rightarrow> string list" where
  "split_on d [] = [[]]"
| "split_on d (c # cs) =
     (case split_on d cs of
        [] \<Rightarrow> [[c]]
      | p # ps \<Rightarrow> if c = d then [] # p # ps else (c # p) # ps)"

fun has_double_dot :: "string \<Rightarrow> bool" where
  "has_double_dot (a # b # cs) = ((a = CHR ''.'' \<and> b = CHR ''.'') \<or> has_double_dot (b # cs))"
| "has_double_dot cs = False"

definition local_part_ok :: "string \<Rightarrow> bool" where
  "local_part_ok l =
     (l \<noteq> [] \<and>
      list_all (\<lambda>c. is_alnum c \<or> List.member ''_'' c \<or> c = CHR 0x27 \<or> List.member ''+-.'' c) (butlast l) \<and>
      (is_alnum (last l) \<or> List.member ''_+-'' (last l)))"

definition label_ok :: "string \<Rightarrow> bool" where
  "label_ok l = (l \<noteq> [] \<and> is_alnum (hd l) \<and> list_all (\<lambda>c. is_alnum c \<or> c = CHR ''-'') (tl l))"

definition domain_ok :: "string \<Rightarrow> bool" where
  "domain_ok d =
     (let parts = split_on (CHR ''.'') d in
      butlast parts \<noteq> [] \<and> list_all label_ok (butlast parts) \<and>
      2 \<le> length (last parts) \<and> list_all is_letter (last parts))"

definition zod3_email :: "string \<Rightarrow> bool" where
  "zod3_email s =
     (case split_on (CHR ''@'') s of
        [l, d] \<Rightarrow> hd s \<noteq> CHR ''.'' \<and> \<not> has_double_dot s \<and> local_part_ok l \<and> domain_ok d
      | _ \<Rightarrow> False)"

fun type_name :: "parsed_type \<Rightarrow> string" where
  "type_name TUndefined = ''undefined''"
| "type_name TNull = ''null''"
| "type_name TNan = ''nan''"
| "type_name TNumber = ''number''"
| "type_name TString = ''string''"

definition zod3_invalid_type_message :: "parsed_type \<Rightarrow> parsed_type \<Rightarrow> string" where
  "zod3_invalid_type_message expected received =
     (if received = TUndefined then ''Required''
      else ''Expected '' @ type_name expected @ '', received '' @ type_name received)"

definition zod3 :: validation_library where
  "zod3 = \<lparr>is_email = zod3_email, invalid_type_message = zod3_invalid_type_message\<rparr>"

section \<open>Validation of one field\<close>

text \<open>
  The outcome of validating the field \<open>k\<close> against the schema: the first issue of its
  entry, and no error for a name the schema does not declare.
\<close>

definition validate_field :: "validation_library \<Rightarrow> (string \<Rightarrow> jsval) \<Rightarrow> string \<Rightarrow> field_error option" where
  "validate_field L vals k =
     (case map_of formSchema k of None \<Rightarrow> None | Some t \<Rightarrow> first_issue L t (vals k))"

section \<open>States of the scenarios\<close>

text \<open>The form after "Al" was typed into the name input of the first step.\<close>

definition al_entered :: wizard where
  "al_entered = \<lparr>step = 0,
     form = \<lparr>formValues = defaultValues(''name'' := JStr ''Al''), formErrors = Map.empty\<rparr>,
     delivered = []\<rparr>"

text \<open>The completed form on the last step: name "Al", e-mail "a@b.com", age 20.\<close>

definition filled :: wizard where
  "filled = \<lparr>step = 2,
     form = \<lparr>formValues = defaultValues(''name'' := JStr ''Al'', ''email'' := JStr ''a@b.com'',
                                         ''age'' := JNum 20),
             formErrors = Map.empty\<rparr>,
     delivered = []\<rparr>"

text \<open>The second step after the e-mail "bad" was entered and rejected.\<close>

definition email_rejected :: wizard where
  "email_rejected = \<lparr>step = 1,
     form = \<lparr>formValues = defaultValues(''name'' := JStr ''Al'', ''email'' := JStr ''bad''),
             formErrors = [''email'' \<mapsto> \<lparr>code = invalid_string, message = ''Invalid email''\<rparr>]\<rparr>,
     delivered = []\<rparr>"

section \<open>The resolver and the store\<close>

lemma apply_result_lookup:
  "apply_result r ns e k = (if k \<in> set ns then r k else e k)"
  unfolding apply_result_def by (induction ns arbitrary: e) auto

lemma map_of_map_filter_keyed:
  "distinct (map fst shape) \<Longrightarrow>
   map_of (List.map_filter (\<lambda>(k, t). map_option (Pair k) (f k t)) shape) k =
     (case map_of shape k of None \<Rightarrow> None | Some t \<Rightarrow> f k t)"
proof (induction shape)
  case Nil
  then show ?case by simp
next
  case (Cons p shape)
  obtain k' t' where p: "p = (k', t')" by (cases p)
  from Cons.prems p have notin: "k' \<notin> fst ` set shape" and d: "distinct (map fst shape)"
    by auto
  from notin have none: "map_of shape k' = None"
    by (simp add: map_of_eq_None_iff)
  show ?case
  proof (cases "f k' t'")
    case None
    with Cons.IH [OF d] p none show ?thesis
      by (auto split: option.splits)
  next
    case (Some e)
    with Cons.IH [OF d] p none show ?thesis
      by (auto split: option.splits)
  qed
qed

lemma distinct_formSchema: "distinct (map fst formSchema)"
  by (simp add: formSchema_def)

lemma resolver_errors_lookup:
  "map_of (resolver_errors L formSchema vals) k = validate_field L vals k"
  unfolding resolver_errors_def validate_field_def
  using map_of_map_filter_keyed [OF distinct_formSchema, of "\<lambda>k t. first_issue L t (vals k)" k]
  by simp

lemma resolver_errors_null:
  "resolver_errors L formSchema vals = [] \<longleftrightarrow> (\<forall>k. validate_field L vals k = None)"
proof -
  have "resolver_errors L formSchema vals = [] \<longleftrightarrow>
        map_of (resolver_errors L formSchema vals) = Map.empty"
    by (cases "resolver_errors L formSchema vals") auto
  also have "\<dots> \<longleftrightarrow> (\<forall>k. validate_field L vals k = None)"
    by (simp add: fun_eq_iff resolver_errors_lookup)
  finally show ?thesis .
qed

lemma trigger_Some:
  "trigger L (Some ns) fs =
     (\<not> (\<exists>n\<in>set ns. validate_field L (formValues fs) n \<noteq> None),
      fs\<lparr>formErrors := (\<lambda>k. if k \<in> set ns then validate_field L (formValues fs) k else formErrors fs k)\<rparr>)"
  by (simp add: trigger_def Let_def list_ex_iff resolver_errors_lookup apply_result_lookup fun_eq_iff)

subsection \<open>The three fields of the schema\<close>

lemma validate_field_name:
  "validate_field L vals ''name'' = first_issue L (ZString [StrMin 2 ''Name too short'']) (vals ''name'')"
  by (simp add: validate_field_def formSchema_def)

lemma validate_field_email:
  "validate_field L vals ''email'' = first_issue L (ZString [StrEmail ''Invalid email'']) (vals ''email'')"
  by (simp add: validate_field_def formSchema_def)

lemma validate_field_age:
  "validate_field L vals ''age'' = first_issue L (ZNumber [NumMin 18 ''Must be at least 18'']) (vals ''age'')"
  by (simp add: validate_field_def formSchema_def)

lemma validate_field_other:
  "k \<noteq> ''name'' \<Longrightarrow> k \<noteq> ''email'' \<Longrightarrow> k \<noteq> ''age'' \<Longrightarrow> validate_field L vals k = None"
  by (simp add: validate_field_def formSchema_def)

lemma validate_field_all_iff:
  "(\<forall>k. validate_field L vals k = None) \<longleftrightarrow>
     validate_field L vals ''name'' = None \<and> validate_field L vals ''email'' = None \<and>
     validate_field L vals ''age'' = None"
proof
  assume "\<forall>k. validate_field L vals k = None"
  then show "validate_field L vals ''name'' = None \<and> validate_field L vals ''email'' = None \<and>
     validate_field L vals ''age'' = None"
    by simp
next
  assume a: "validate_field L vals ''name'' = None \<and> validate_field L vals ''email'' = None \<and>
     validate_field L vals ''age'' = None"
  show "\<forall>k. validate_field L vals k = None"
  proof
    fix k
    show "validate_field L vals k = None"
    proof (cases "k = ''name'' \<or> k = ''email'' \<or> k = ''age''")
      case True
      with a show ?thesis by (elim disjE) simp_all
    next
      case False
      then show ?thesis by (intro validate_field_other) simp_all
    qed
  qed
qed

section \<open>Navigation\<close>

lemma onNext_in_range:
  assumes "array_index fieldsPerStep (step w) = Some ns"
  shows "onNext L w =
           w\<lparr>form := (form w)\<lparr>formErrors :=
                 (\<lambda>k. if k \<in> set ns then validate_field L (formValues (form w)) k
                      else formErrors (form w) k)\<rparr>,
             step := (if \<forall>n\<in>set ns. validate_field L (formValues (form w)) n = None
                      then step w + 1 else step w)\<rparr>"
  using assms by (simp add: onNext_def trigger_Some)

lemma step_onNext_cases: "step (onNext L w) = step w \<or> step (onNext L w) = step w + 1"
  by (simp add: onNext_def split: prod.splits)

lemma step_handleSubmit: "step (handleSubmit L w) = step w"
  by (simp add: handleSubmit_def onSubmit_def Let_def)

lemma step_onChange: "step (onChange L n v rv w) = step w"
  by (simp add: onChange_def Let_def)

lemma fire_step_bounds:
  assumes "fire L e w = Some w'" and "0 \<le> step w" and "step w < int (length steps)"
  shows "0 \<le> step w' \<and> step w' < int (length steps)"
proof (cases e)
  case Next
  with assms(1) have g: "step w < int (length steps) - 1" and w': "w' = onNext L w"
    by (auto split: if_splits)
  from step_onNext_cases [of L w] g assms(2) show ?thesis
    unfolding w' by auto
next
  case Back
  with assms show ?thesis
    by (auto simp: onBack_def split: if_splits)
next
  case Submit
  with assms show ?thesis
    by (auto simp: step_handleSubmit)
next
  case (EditText s rv)
  with assms show ?thesis
    by (auto simp: step_onChange split: option.splits input_element.splits)
next
  case (EditNumber x rv)
  with assms show ?thesis
    by (auto simp: step_onChange split: option.splits input_element.splits)
qed

lemma run_step_bounds:
  "run L es w = Some w' \<Longrightarrow> 0 \<le> step w \<Longrightarrow> step w < int (length steps) \<Longrightarrow>
   0 \<le> step w' \<and> step w' < int (length steps)"
proof (induction es arbitrary: w)
  case Nil
  then show ?case by simp
next
  case (Cons e es)
  from Cons.prems(1) obtain w1 where f: "fire L e w = Some w1" and r: "run L es w1 = Some w'"
    by (auto split: option.splits)
  from fire_step_bounds [OF f Cons.prems(2,3)] have "0 \<le> step w1" "step w1 < int (length steps)"
    by simp_all
  with Cons.IH [OF r] show ?case by simp
qed

lemma array_index_fieldsPerStep:
  "0 \<le> i \<Longrightarrow> i < int (length steps) \<Longrightarrow> \<exists>ns. array_index fieldsPerStep i = Some ns"
  by (simp add: array_index_def fieldsPerStep_def steps_def)

section \<open>Evaluation with the library instance\<close>

lemma zod3_email_example: "is_email zod3 ''a@b.com''"
  by (simp add: zod3_def zod3_email_def local_part_ok_def domain_ok_def label_ok_def
      is_alnum_def is_letter_def)

lemma zod3_email_empty: "\<not> is_email zod3 ''''"
  by (simp add: zod3_def zod3_email_def)

lemma zod3_email_bad: "\<not> is_email zod3 ''bad''"
  by (simp add: zod3_def zod3_email_def)

lemma first_issue_name_Al: "first_issue L (ZString [StrMin 2 ''Name too short'']) (JStr ''Al'') = None"
  by (simp add: first_issue_def parse_issues_def)

lemma first_issue_email_ok:
  "is_email L s \<Longrightarrow> first_issue L (ZString [StrEmail ''Invalid email'']) (JStr s) = None"
  by (simp add: first_issue_def parse_issues_def)

lemma first_issue_email_bad:
  "\<not> is_email L s \<Longrightarrow> first_issue L (ZString [StrEmail ''Invalid email'']) (JStr s) =
     Some \<lparr>code = invalid_string, message = ''Invalid email''\<rparr>"
  by (simp add: first_issue_def parse_issues_def)

lemma first_issue_age:
  "first_issue L (ZNumber [NumMin 18 ''Must be at least 18'']) v =
     (case v of
        JNum x \<Rightarrow> if x < 18 then Some \<lparr>code = too_small, message = ''Must be at least 18''\<rparr> else None
      | _ \<Rightarrow> Some \<lparr>code = invalid_type, message = invalid_type_message L TNumber (getParsedType v)\<rparr>)"
  by (cases v) (simp_all add: first_issue_def parse_issues_def)

lemma run_Cons_Some: "fire L e w = Some w' \<Longrightarrow> run L es w' = r \<Longrightarrow> run L (e # es) w = r"
  by simp

lemma run_al_entered: "run L [EditText ''Al'' False] initial = Some al_entered"
  by (simp add: initial_def al_entered_def array_index_def stepComponents_def onChange_def)

lemma run_filled:
  "run zod3 [EditText ''Al'' False, Next, EditText ''a@b.com'' False, Next, EditNumber (Some 20) False]
     initial = Some filled"
proof -
  let ?w1 = "al_entered"
  let ?w2 = "al_entered\<lparr>step := 1\<rparr>"
  let ?w3 = "?w2\<lparr>form := (form ?w2)\<lparr>formValues := (formValues (form ?w2))(''email'' := JStr ''a@b.com'')\<rparr>\<rparr>"
  let ?w4 = "?w3\<lparr>step := 2\<rparr>"
  have 1: "fire zod3 (EditText ''Al'' False) initial = Some ?w1"
    by (simp add: initial_def al_entered_def array_index_def stepComponents_def onChange_def)
  have n1: "array_index fieldsPerStep (step ?w1) = Some [''name'']"
    by (simp add: al_entered_def array_index_def fieldsPerStep_def)
  have "onNext zod3 ?w1 = ?w2"
    unfolding onNext_in_range [OF n1]
    by (simp add: fun_eq_iff al_entered_def validate_field_name first_issue_name_Al)
  then have 2: "fire zod3 Next ?w1 = Some ?w2"
    by (simp add: al_entered_def steps_def)
  have 3: "fire zod3 (EditText ''a@b.com'' False) ?w2 = Some ?w3"
    by (simp add: array_index_def stepComponents_def onChange_def)
  have n3: "array_index fieldsPerStep (step ?w3) = Some [''email'']"
    by (simp add: array_index_def fieldsPerStep_def)
  have "onNext zod3 ?w3 = ?w4"
    unfolding onNext_in_range [OF n3]
    by (simp add: fun_eq_iff al_entered_def validate_field_email
        first_issue_email_ok [OF zod3_email_example])
  then have 4: "fire zod3 Next ?w3 = Some ?w4"
    by (simp add: steps_def)
  have 5: "fire zod3 (EditNumber (Some 20) False) ?w4 = Some filled"
    by (simp add: array_index_def stepComponents_def onChange_def filled_def al_entered_def)
  have "run zod3 [] filled = Some filled"
    by simp
  then show ?thesis
    by (intro run_Cons_Some [OF 1] run_Cons_Some [OF 2] run_Cons_Some [OF 3]
        run_Cons_Some [OF 4] run_Cons_Some [OF 5])
qed

section \<open>Next\<close>

text \<open>
  C1. In every state reached from the initial one through the rendered form, \<open>onNext\<close>
  validates exactly the fields that \<open>fieldsPerStep\<close> lists for the current step: their
  error entries become the outcome of validating them, every other error entry and all
  values stay as they were. The step becomes \<open>step + 1\<close> if and only if none of these
  fields has an error; when one has, the step is unchanged and its error is stored. The
  submission handler is not called.
\<close>

theorem onNext_validates_current_step:
  assumes "run L es initial = Some w"
  shows "\<exists>names. array_index fieldsPerStep (step w) = Some names \<and>
           formValues (form (onNext L w)) = formValues (form w) \<and>
           (\<forall>k. formErrors (form (onNext L w)) k =
                  (if k \<in> set names then validate_field L (formValues (form w)) k
                   else formErrors (form w) k)) \<and>
           (step (onNext L w) = step w + 1 \<longleftrightarrow>
              (\<forall>k\<in>set names. validate_field L (formValues (form w)) k = None)) \<and>
           ((\<exists>k\<in>set names. validate_field L (formValues (form w)) k \<noteq> None) \<longrightarrow>
              step (onNext L w) = step w) \<and>
           delivered (onNext L w) = delivered w"
proof -
  have "0 \<le> step initial" "step initial < int (length steps)"
    by (simp_all add: initial_def steps_def)
  with run_step_bounds [OF assms] have "0 \<le> step w" "step w < int (length steps)"
    by simp_all
  then obtain names where n: "array_index fieldsPerStep (step w) = Some names"
    using array_index_fieldsPerStep by blast
  show ?thesis
    by (rule exI [of _ names]) (simp add: n onNext_in_range [OF n])
qed

theorem onNext_validates_current_step_witness:
  "run zod3 [EditText ''Al'' False] initial = Some al_entered \<and>
   step (onNext zod3 al_entered) = 1 \<and>
   formErrors (form (onNext zod3 al_entered)) ''name'' = None"
proof -
  have r: "run zod3 [EditText ''Al'' False] initial = Some al_entered"
    by (rule run_al_entered)
  have n: "array_index fieldsPerStep (step al_entered) = Some [''name'']"
    by (simp add: al_entered_def array_index_def fieldsPerStep_def)
  have v: "validate_field zod3 (formValues (form al_entered)) ''name'' = None"
    by (simp add: validate_field_name al_entered_def first_issue_def parse_issues_def)
  from onNext_validates_current_step [OF r] n v
  have "step (onNext zod3 al_entered) = step al_entered + 1"
    and "formErrors (form (onNext zod3 al_entered)) ''name'' = None"
    by auto
  with r show ?thesis by (simp add: al_entered_def)
qed

section \<open>Submit\<close>

lemma handleSubmit_form:
  "form (handleSubmit L w) =
     (form w)\<lparr>formErrors := validate_field L (formValues (form w))\<rparr>"
proof -
  have "map_of (resolver_errors L formSchema (formValues (form w))) =
        validate_field L (formValues (form w))"
    by (rule ext) (rule resolver_errors_lookup)
  then show ?thesis
    unfolding handleSubmit_def onSubmit_def Let_def
    by (cases "resolver_errors L formSchema (formValues (form w)) = []") simp_all
qed

lemma handleSubmit_delivered:
  "delivered (handleSubmit L w) =
     (if \<forall>k. validate_field L (formValues (form w)) k = None
      then delivered w @ [resolver_values formSchema (formValues (form w))]
      else delivered w)"
  by (simp add: handleSubmit_def onSubmit_def Let_def resolver_errors_null)

lemma resolver_values_formSchema:
  "resolver_values formSchema vals =
     [(''name'', vals ''name''), (''email'', vals ''email''), (''age'', vals ''age'')]"
  by (simp add: resolver_values_def formSchema_def)

text \<open>
  C2. \<open>handleSubmit\<close> calls the submission handler, with the snapshot of all three
  values, if and only if validating every field of the schema reports no error. When a
  field fails the handler is not called and at least one error is stored. In both cases
  the step and the values are unchanged and the stored errors are exactly the outcome of
  the full validation.
\<close>

theorem handleSubmit_delivers_iff_valid:
  "(delivered (handleSubmit L w) =
      delivered w @ [[(''name'', formValues (form w) ''name''),
                      (''email'', formValues (form w) ''email''),
                      (''age'', formValues (form w) ''age'')]]
    \<longleftrightarrow> (\<forall>k. validate_field L (formValues (form w)) k = None)) \<and>
   ((\<exists>k. validate_field L (formValues (form w)) k \<noteq> None) \<longrightarrow>
      delivered (handleSubmit L w) = delivered w \<and>
      (\<exists>k. formErrors (form (handleSubmit L w)) k \<noteq> None)) \<and>
   step (handleSubmit L w) = step w \<and>
   formValues (form (handleSubmit L w)) = formValues (form w) \<and>
   formErrors (form (handleSubmit L w)) = validate_field L (formValues (form w))"
  by (simp add: handleSubmit_delivered handleSubmit_form step_handleSubmit
      resolver_values_formSchema)

theorem handleSubmit_delivers_iff_valid_witness:
  "validate_field zod3 (formValues (form email_rejected)) ''email'' =
     Some \<lparr>code = invalid_string, message = ''Invalid email''\<rparr> \<and>
   delivered (handleSubmit zod3 email_rejected) = [] \<and>
   step (handleSubmit zod3 email_rejected) = 1 \<and>
   formErrors (form (handleSubmit zod3 email_rejected)) ''email'' =
     Some \<lparr>code = invalid_string, message = ''Invalid email''\<rparr>"
proof -
  have v: "validate_field zod3 (formValues (form email_rejected)) ''email'' =
     Some \<lparr>code = invalid_string, message = ''Invalid email''\<rparr>"
    by (simp add: validate_field_email email_rejected_def first_issue_email_bad [OF zod3_email_bad])
  then have "\<exists>k. validate_field zod3 (formValues (form email_rejected)) k \<noteq> None"
    by (intro exI [of _ "''email''"]) simp
  with handleSubmit_delivers_iff_valid [of zod3 email_rejected] v show ?thesis
    by (simp add: email_rejected_def)
qed

text \<open>
  C3 as stated fails. The handlers carry no guard of their own: \<open>onBack\<close> at step 0
  moves to step -1, and \<open>onNext\<close> on the last step, with a valid age, moves to step 3.
  Neither is a no-op and both leave the bounds.
\<close>

theorem handlers_outside_guard_counterexample:
  "step initial = 0 \<and> onBack initial \<noteq> initial \<and> step (onBack initial) = - 1 \<and>
   \<not> 0 \<le> step (onBack initial) \<and>
   step filled = int (length steps) - 1 \<and> onNext zod3 filled \<noteq> filled \<and>
   step (onNext zod3 filled) = 3 \<and> \<not> step (onNext zod3 filled) < int (length steps)"
proof -
  have b: "step (onBack initial) = - 1" and i: "step initial = 0"
    by (simp_all add: onBack_def initial_def)
  have n: "array_index fieldsPerStep (step filled) = Some [''age'']"
    by (simp add: filled_def array_index_def fieldsPerStep_def)
  have v: "validate_field zod3 (formValues (form filled)) ''age'' = None"
    by (simp add: validate_field_age first_issue_age filled_def)
  have f: "step filled = 2"
    by (simp add: filled_def)
  have s: "step (onNext zod3 filled) = 3"
    unfolding onNext_in_range [OF n] by (simp add: v f)
  from b i have "onBack initial \<noteq> initial" by auto
  moreover from s f have "onNext zod3 filled \<noteq> filled" by auto
  ultimately show ?thesis
    using b i f s by (simp add: steps_def)
qed

section \<open>The step stays in bounds\<close>

text \<open>
  C3, amended. The bounds are kept by the rendering: Back is offered only while
  \<open>step > 0\<close> and Next only while \<open>step < steps.length - 1\<close>. For every sequence of events
  that the rendered form offers, starting from the initial state, \<open>0 \<le> step < steps.length\<close>
  holds in the state reached.
\<close>

theorem rendered_events_keep_step_in_bounds:
  assumes "run L es initial = Some w"
  shows "0 \<le> step w \<and> step w < int (length steps)"
proof -
  have "0 \<le> step initial" and "step initial < int (length steps)"
    by (simp_all add: initial_def steps_def)
  with run_step_bounds [OF assms] show ?thesis
    by simp
qed

theorem rendered_events_keep_step_in_bounds_witness:
  "run zod3 [EditText ''Al'' False, Next, EditText ''a@b.com'' False, Next,
             EditNumber (Some 20) False] initial = Some filled \<and>
   0 \<le> step filled \<and> step filled < int (length steps) \<and>
   fire zod3 Next filled = None \<and> fire zod3 Back initial = None"
proof -
  have "fire zod3 Next filled = None" and "fire zod3 Back initial = None"
    by (simp_all add: filled_def initial_def steps_def)
  with rendered_events_keep_step_in_bounds [OF run_filled] run_filled show ?thesis
    by simp
qed

section \<open>Back\<close>

text \<open>
  C4. In a state with \<open>step > 0\<close>, whatever the values and the stored errors, \<open>onBack\<close>
  moves to \<open>step - 1\<close>; it validates nothing: the form store (every value and every
  error) and the record of the submission handler are unchanged. Back is offered in such
  a state.
\<close>

theorem onBack_decrements_only:
  assumes "0 < step w"
  shows "step (onBack w) = step w - 1 \<and> form (onBack w) = form w \<and>
         formValues (form (onBack w)) = formValues (form w) \<and>
         formErrors (form (onBack w)) = formErrors (form w) \<and>
         delivered (onBack w) = delivered w \<and>
         fire L Back w = Some (onBack w)"
  using assms by (simp add: onBack_def)

theorem onBack_decrements_only_witness:
  "0 < step email_rejected \<and> step (onBack email_rejected) = 0 \<and>
   formValues (form (onBack email_rejected)) ''email'' = JStr ''bad'' \<and>
   formErrors (form (onBack email_rejected)) ''email'' =
     Some \<lparr>code = invalid_string, message = ''Invalid email''\<rparr>"
proof -
  have h: "0 < step email_rejected"
    by (simp add: email_rejected_def)
  from onBack_decrements_only [OF h, of zod3] h show ?thesis
    by (simp add: email_rejected_def)
qed

section \<open>Validation of a step leaves the other steps alone\<close>

lemma fieldsPerStep_disjoint:
  assumes "array_index fieldsPerStep a = Some A" and "array_index fieldsPerStep b = Some B"
    and "a \<noteq> b" and "k \<in> set B"
  shows "k \<notin> set A"
proof -
  from assms(1) have a: "a = 0 \<or> a = 1 \<or> a = 2"
    by (auto simp: array_index_def fieldsPerStep_def split: if_splits)
  from assms(2) have b: "b = 0 \<or> b = 1 \<or> b = 2"
    by (auto simp: array_index_def fieldsPerStep_def split: if_splits)
  from a b assms show ?thesis
    by (elim disjE) (auto simp: array_index_def fieldsPerStep_def)
qed

lemma onChange_frame:
  assumes "k \<noteq> n"
  shows "formErrors (form (onChange L n v rv w)) k = formErrors (form w) k"
    and "formValues (form (onChange L n v rv w)) k = formValues (form w) k"
  using assms by (simp_all add: onChange_def Let_def trigger_Some)

text \<open>
  C5. Let \<open>A\<close> be the fields of step \<open>a\<close> and \<open>k\<close> a field of another step \<open>b\<close>.
  Validating \<open>A\<close> overwrites the error entries of the names in \<open>A\<close> with their outcome
  and leaves every other error entry, in particular the one of \<open>k\<close>, and all values as
  they were; so does \<open>onNext\<close> on step \<open>a\<close>. Editing a field of \<open>A\<close>, whether or not
  the edit is followed by the validation of that field, changes neither the value nor
  the error of \<open>k\<close>.
\<close>

theorem step_validation_frame:
  assumes "array_index fieldsPerStep a = Some A" and "array_index fieldsPerStep b = Some B"
    and "a \<noteq> b" and "k \<in> set B"
  shows "formErrors (snd (trigger L (Some A) fs)) k = formErrors fs k \<and>
         formValues (snd (trigger L (Some A) fs)) = formValues fs \<and>
         (\<forall>j. j \<notin> set A \<longrightarrow> formErrors (snd (trigger L (Some A) fs)) j = formErrors fs j) \<and>
         (\<forall>n\<in>set A. formErrors (snd (trigger L (Some A) fs)) n =
                        validate_field L (formValues fs) n) \<and>
         (step w = a \<longrightarrow>
            formErrors (form (onNext L w)) k = formErrors (form w) k \<and>
            formValues (form (onNext L w)) = formValues (form w)) \<and>
         (\<forall>n\<in>set A. \<forall>v rv.
            formErrors (form (onChange L n v rv w)) k = formErrors (form w) k \<and>
            formValues (form (onChange L n v rv w)) k = formValues (form w) k)"
proof -
  have k: "k \<notin> set A"
    by (rule fieldsPerStep_disjoint [OF assms])
  have nxt: "formErrors (form (onNext L w)) k = formErrors (form w) k \<and>
      formValues (form (onNext L w)) = formValues (form w)" if "step w = a"
  proof -
    from that assms(1) have "array_index fieldsPerStep (step w) = Some A"
      by simp
    from onNext_in_range [OF this] k show ?thesis
      by simp
  qed
  have edit: "formErrors (form (onChange L n v rv w)) k = formErrors (form w) k \<and>
      formValues (form (onChange L n v rv w)) k = formValues (form w) k" if "n \<in> set A" for n v rv
  proof -
    from that k have "k \<noteq> n" by auto
    then show ?thesis
      by (simp add: onChange_frame)
  qed
  from k nxt edit show ?thesis
    by (simp add: trigger_Some)
qed

theorem step_validation_frame_witness:
  "array_index fieldsPerStep 0 = Some [''name''] \<and>
   array_index fieldsPerStep 1 = Some [''email''] \<and> (0::int) \<noteq> 1 \<and>
   ''email'' \<in> set [''email''] \<and>
   formErrors (snd (trigger zod3 (Some [''name'']) (form email_rejected))) ''email'' =
     Some \<lparr>code = invalid_string, message = ''Invalid email''\<rparr> \<and>
   formErrors (form (onChange zod3 ''name'' (JStr '''') True email_rejected)) ''email'' =
     Some \<lparr>code = invalid_string, message = ''Invalid email''\<rparr> \<and>
   formErrors (form (onChange zod3 ''name'' (JStr '''') True email_rejected)) ''name'' =
     Some \<lparr>code = too_small, message = ''Name too short''\<rparr>"
proof -
  have a: "array_index fieldsPerStep 0 = Some [''name'']"
    and b: "array_index fieldsPerStep 1 = Some [''email'']"
    by (simp_all add: array_index_def fieldsPerStep_def)
  have n: "(0::int) \<noteq> 1" and k: "''email'' \<in> set [''email'']"
    by simp_all
  have e: "formErrors (form email_rejected) ''email'' =
      Some \<lparr>code = invalid_string, message = ''Invalid email''\<rparr>"
    by (simp add: email_rejected_def)
  have own: "formErrors (form (onChange zod3 ''name'' (JStr '''') True email_rejected)) ''name'' =
      Some \<lparr>code = too_small, message = ''Name too short''\<rparr>"
    by (simp add: onChange_def Let_def trigger_Some validate_field_name first_issue_def
        parse_issues_def)
  from step_validation_frame [OF a b n k, of zod3 "form email_rejected" email_rejected] e
  have "formErrors (snd (trigger zod3 (Some [''name'']) (form email_rejected))) ''email'' =
      Some \<lparr>code = invalid_string, message = ''Invalid email''\<rparr>"
    and "formErrors (form (onChange zod3 ''name'' (JStr '''') True email_rejected)) ''email'' =
      Some \<lparr>code = invalid_string, message = ''Invalid email''\<rparr>"
    by simp_all
  with a b own show ?thesis
    by simp
qed

section \<open>The steps partition the schema\<close>

text \<open>
  C6. The names listed in \<open>fieldsPerStep\<close> are exactly the keys of \<open>formSchema\<close>, which are
  name, email and age; no name is listed twice, and each key belongs to the list of
  exactly one step. There is one list for each step title.
\<close>

theorem fieldsPerStep_partitions_schema:
  "set (concat fieldsPerStep) = set (map fst formSchema) \<and>
   set (map fst formSchema) = {''name'', ''email'', ''age''} \<and>
   distinct (concat fieldsPerStep) \<and>
   (\<forall>k\<in>set (map fst formSchema). \<exists>!i. i < length fieldsPerStep \<and> k \<in> set (fieldsPerStep ! i)) \<and>
   length fieldsPerStep = length steps"
proof -
  have "\<exists>!i. i < length fieldsPerStep \<and> ''name'' \<in> set (fieldsPerStep ! i)"
    by (rule ex1I [of _ 0]) (auto simp: fieldsPerStep_def less_Suc_eq)
  moreover have "\<exists>!i. i < length fieldsPerStep \<and> ''email'' \<in> set (fieldsPerStep ! i)"
    by (rule ex1I [of _ 1]) (auto simp: fieldsPerStep_def less_Suc_eq)
  moreover have "\<exists>!i. i < length fieldsPerStep \<and> ''age'' \<in> set (fieldsPerStep ! i)"
    by (rule ex1I [of _ 2]) (auto simp: fieldsPerStep_def less_Suc_eq)
  moreover have "set (map fst formSchema) = {''name'', ''email'', ''age''}"
    by (simp add: formSchema_def)
  moreover have "set (concat fieldsPerStep) = {''name'', ''email'', ''age''}"
    and "distinct (concat fieldsPerStep)" and "length fieldsPerStep = length steps"
    by (simp_all add: fieldsPerStep_def steps_def)
  ultimately show ?thesis
    by simp
qed

theorem fieldsPerStep_partitions_schema_witness:
  "''email'' \<in> set (map fst formSchema) \<and>
   (\<exists>!i. i < length fieldsPerStep \<and> ''email'' \<in> set (fieldsPerStep ! i)) \<and>
   ''email'' \<in> set (fieldsPerStep ! 1)"
proof -
  have m: "''email'' \<in> set (map fst formSchema)"
    by (simp add: formSchema_def)
  have "''email'' \<in> set (fieldsPerStep ! 1)"
    by (simp add: fieldsPerStep_def)
  moreover from fieldsPerStep_partitions_schema
  have "\<forall>k\<in>set (map fst formSchema). \<exists>!i. i < length fieldsPerStep \<and> k \<in> set (fieldsPerStep ! i)"
    by (elim conjE)
  from bspec [OF this m]
  have "\<exists>!i. i < length fieldsPerStep \<and> ''email'' \<in> set (fieldsPerStep ! i)" .
  ultimately show ?thesis
    using m by (intro conjI)
qed

section \<open>Scenarios\<close>

text \<open>
  C7. On step 0 with the empty string as the value of name, \<open>onNext\<close> stays on step 0
  and stores the error "Name too short" for name.
\<close>

theorem onNext_empty_name_rejected:
  assumes "step w = 0" and "formValues (form w) ''name'' = JStr ''''"
  shows "step (onNext L w) = 0 \<and>
         formErrors (form (onNext L w)) ''name'' =
           Some \<lparr>code = too_small, message = ''Name too short''\<rparr> \<and>
         map_option message (formErrors (form (onNext L w)) ''name'') = Some ''Name too short''"
proof -
  from assms(1) have n: "array_index fieldsPerStep (step w) = Some [''name'']"
    by (simp add: array_index_def fieldsPerStep_def)
  from assms(2) have v: "validate_field L (formValues (form w)) ''name'' =
      Some \<lparr>code = too_small, message = ''Name too short''\<rparr>"
    by (simp add: validate_field_name first_issue_def parse_issues_def)
  show ?thesis
    unfolding onNext_in_range [OF n] using assms(1) v by simp
qed

theorem onNext_empty_name_rejected_witness:
  "step initial = 0 \<and> formValues (form initial) ''name'' = JStr '''' \<and>
   step (onNext zod3 initial) = 0 \<and>
   map_option message (formErrors (form (onNext zod3 initial)) ''name'') = Some ''Name too short''"
proof -
  have s: "step initial = 0" and v: "formValues (form initial) ''name'' = JStr ''''"
    by (simp_all add: initial_def defaultValues_def)
  from onNext_empty_name_rejected [OF s v, of zod3] s v show ?thesis
    by simp
qed

text \<open>
  C8. With the values name "Al", e-mail "a@b.com" (an address the library accepts) and
  age 20, \<open>handleSubmit\<close> finds no error in any field, leaves the error object empty and
  calls the submission handler with exactly the snapshot of these three entries.
\<close>

theorem handleSubmit_valid_scenario:
  assumes "is_email L ''a@b.com''"
    and "formValues (form w) ''name'' = JStr ''Al''"
    and "formValues (form w) ''email'' = JStr ''a@b.com''"
    and "formValues (form w) ''age'' = JNum 20"
  shows "(\<forall>k. validate_field L (formValues (form w)) k = None) \<and>
         formErrors (form (handleSubmit L w)) = Map.empty \<and>
         delivered (handleSubmit L w) =
           delivered w @ [[(''name'', JStr ''Al''), (''email'', JStr ''a@b.com''), (''age'', JNum 20)]]"
proof -
  have "validate_field L (formValues (form w)) ''name'' = None"
    by (simp add: validate_field_name assms(2) first_issue_name_Al)
  moreover have "validate_field L (formValues (form w)) ''email'' = None"
    by (simp add: validate_field_email assms(3) first_issue_email_ok [OF assms(1)])
  moreover have "validate_field L (formValues (form w)) ''age'' = None"
    by (simp add: validate_field_age assms(4) first_issue_age)
  ultimately have ok: "\<forall>k. validate_field L (formValues (form w)) k = None"
    by (simp add: validate_field_all_iff)
  then have "validate_field L (formValues (form w)) = Map.empty"
    by (simp add: fun_eq_iff)
  with ok show ?thesis
    by (simp add: handleSubmit_form handleSubmit_delivered resolver_values_formSchema assms)
qed

theorem handleSubmit_valid_scenario_witness:
  "run zod3 [EditText ''Al'' False, Next, EditText ''a@b.com'' False, Next,
             EditNumber (Some 20) False] initial = Some filled \<and>
   is_email zod3 ''a@b.com'' \<and>
   formValues (form filled) ''name'' = JStr ''Al'' \<and>
   formValues (form filled) ''email'' = JStr ''a@b.com'' \<and>
   formValues (form filled) ''age'' = JNum 20 \<and>
   formErrors (form (handleSubmit zod3 filled)) = Map.empty \<and>
   delivered (handleSubmit zod3 filled) =
     [[(''name'', JStr ''Al''), (''email'', JStr ''a@b.com''), (''age'', JNum 20)]]"
proof -
  have n: "formValues (form filled) ''name'' = JStr ''Al''"
    and e: "formValues (form filled) ''email'' = JStr ''a@b.com''"
    and a: "formValues (form filled) ''age'' = JNum 20"
    by (simp_all add: filled_def)
  have d: "delivered filled = []"
    by (simp add: filled_def)
  from handleSubmit_valid_scenario [OF zod3_email_example n e a] zod3_email_example n e a d
    run_filled
  show ?thesis
    by simp
qed

text \<open>
  C9. With the default values (name and e-mail empty, age null; the library rejects the
  empty string as an address) the full validation reports an error for each of the
  three fields, so that \<open>handleSubmit\<close> stores them and does not call the submission
  handler.
\<close>

theorem untouched_form_fails_everywhere:
  assumes "\<not> is_email L ''''" and "formValues (form w) = defaultValues"
  shows "validate_field L (formValues (form w)) ''name'' =
           Some \<lparr>code = too_small, message = ''Name too short''\<rparr> \<and>
         validate_field L (formValues (form w)) ''email'' =
           Some \<lparr>code = invalid_string, message = ''Invalid email''\<rparr> \<and>
         validate_field L (formValues (form w)) ''age'' =
           Some \<lparr>code = invalid_type, message = invalid_type_message L TNumber TNull\<rparr> \<and>
         formErrors (form (handleSubmit L w)) = validate_field L (formValues (form w)) \<and>
         delivered (handleSubmit L w) = delivered w"
proof -
  have n: "validate_field L (formValues (form w)) ''name'' =
      Some \<lparr>code = too_small, message = ''Name too short''\<rparr>"
    by (simp add: validate_field_name assms(2) defaultValues_def first_issue_def parse_issues_def)
  have e: "validate_field L (formValues (form w)) ''email'' =
      Some \<lparr>code = invalid_string, message = ''Invalid email''\<rparr>"
    by (simp add: validate_field_email assms(2) defaultValues_def first_issue_email_bad [OF assms(1)])
  have a: "validate_field L (formValues (form w)) ''age'' =
      Some \<lparr>code = invalid_type, message = invalid_type_message L TNumber TNull\<rparr>"
    by (simp add: validate_field_age assms(2) defaultValues_def first_issue_age)
  from n have "\<not> (\<forall>k. validate_field L (formValues (form w)) k = None)"
    by (metis option.distinct(1))
  with n e a show ?thesis
    by (simp add: handleSubmit_form handleSubmit_delivered)
qed

theorem untouched_form_fails_everywhere_witness:
  "\<not> is_email zod3 '''' \<and> formValues (form initial) = defaultValues \<and>
   map_option message (validate_field zod3 (formValues (form initial)) ''name'') =
     Some ''Name too short'' \<and>
   map_option message (validate_field zod3 (formValues (form initial)) ''email'') =
     Some ''Invalid email'' \<and>
   map_option message (validate_field zod3 (formValues (form initial)) ''age'') =
     Some ''Expected number, received null'' \<and>
   delivered (handleSubmit zod3 initial) = []"
proof -
  have v: "formValues (form initial) = defaultValues" and d: "delivered initial = []"
    by (simp_all add: initial_def)
  have m: "invalid_type_message zod3 TNumber TNull = ''Expected number, received null''"
    by (simp add: zod3_def zod3_invalid_type_message_def)
  from untouched_form_fails_everywhere [OF zod3_email_empty v] zod3_email_empty v d m
  show ?thesis
    by simp
qed

lemma zod3_mismatch_text: "invalid_type_message zod3 TNumber r \<noteq> ''Must be at least 18''"
  by (cases r) (simp_all add: zod3_def zod3_invalid_type_message_def)

text \<open>
  C10. The schema declares no message for a value of the wrong type, so the text of that
  error is the library's own; it is assumed to differ from the declared text "Must be at
  least 18". When the value of age is not a number (null, NaN, or any other value that
  is not a number) the error of age is the type mismatch: its message is the one the
  library generates for the expected and the received type, and it is not "Must be at
  least 18". The message of the error of age is "Must be at least 18" exactly when the
  value is a number below 18; these are also the only values of age whose error is not
  the type mismatch.
\<close>

theorem age_not_a_number_is_type_mismatch:
  assumes "\<And>r. r \<noteq> TNumber \<Longrightarrow> invalid_type_message L TNumber r \<noteq> ''Must be at least 18''"
  shows
  "(vals ''age'' = JNull \<longrightarrow>
      validate_field L vals ''age'' =
        Some \<lparr>code = invalid_type, message = invalid_type_message L TNumber TNull\<rparr>) \<and>
   (vals ''age'' = JNaN \<longrightarrow>
      validate_field L vals ''age'' =
        Some \<lparr>code = invalid_type, message = invalid_type_message L TNumber TNan\<rparr>) \<and>
   ((\<forall>x. vals ''age'' \<noteq> JNum x) \<longrightarrow>
      validate_field L vals ''age'' =
        Some \<lparr>code = invalid_type,
              message = invalid_type_message L TNumber (getParsedType (vals ''age''))\<rparr>) \<and>
   (validate_field L vals ''age'' = Some \<lparr>code = too_small, message = ''Must be at least 18''\<rparr>
      \<longleftrightarrow> (\<exists>x. vals ''age'' = JNum x \<and> x < 18)) \<and>
   ((\<exists>e. validate_field L vals ''age'' = Some e \<and> code e \<noteq> invalid_type)
      \<longleftrightarrow> (\<exists>x. vals ''age'' = JNum x \<and> x < 18)) \<and>
   ((\<forall>x. vals ''age'' \<noteq> JNum x) \<longrightarrow>
      map_option message (validate_field L vals ''age'') =
        Some (invalid_type_message L TNumber (getParsedType (vals ''age''))) \<and>
      map_option message (validate_field L vals ''age'') \<noteq> Some ''Must be at least 18'') \<and>
   (map_option message (validate_field L vals ''age'') = Some ''Must be at least 18''
      \<longleftrightarrow> (\<exists>x. vals ''age'' = JNum x \<and> x < 18))"
proof (cases "vals ''age''")
  case (JNum x)
  then show ?thesis
    unfolding validate_field_age first_issue_age by auto
next
  case JUndefined
  with assms [of TUndefined] show ?thesis
    unfolding validate_field_age first_issue_age by simp
next
  case JNull
  with assms [of TNull] show ?thesis
    unfolding validate_field_age first_issue_age by simp
next
  case JNaN
  with assms [of TNan] show ?thesis
    unfolding validate_field_age first_issue_age by simp
next
  case (JStr s)
  with assms [of TString] show ?thesis
    unfolding validate_field_age first_issue_age by simp
qed

theorem age_not_a_number_is_type_mismatch_witness:
  "\<not> (\<exists>r. r \<noteq> TNumber \<and> invalid_type_message zod3 TNumber r = ''Must be at least 18'') \<and>
   (\<forall>vals. map_option message (validate_field zod3 vals ''age'') = Some ''Must be at least 18''
      \<longleftrightarrow> (\<exists>x. vals ''age'' = JNum x \<and> x < 18)) \<and>
   defaultValues ''age'' = JNull \<and>
   map_option message (validate_field zod3 defaultValues ''age'') =
     Some ''Expected number, received null'' \<and>
   map_option message (validate_field zod3 (defaultValues(''age'' := valueAsNumber None)) ''age'') =
     Some ''Expected number, received nan'' \<and>
   map_option message (validate_field zod3 (defaultValues(''age'' := valueAsNumber (Some 15))) ''age'') =
     Some ''Must be at least 18'' \<and>
   validate_field zod3 (defaultValues(''age'' := valueAsNumber (Some 18))) ''age'' = None"
proof -
  note inst = age_not_a_number_is_type_mismatch [of zod3, OF zod3_mismatch_text]
  have h: "\<not> (\<exists>r. r \<noteq> TNumber \<and> invalid_type_message zod3 TNumber r = ''Must be at least 18'')"
    using zod3_mismatch_text by simp
  have iff: "\<forall>vals. map_option message (validate_field zod3 vals ''age'') = Some ''Must be at least 18''
      \<longleftrightarrow> (\<exists>x. vals ''age'' = JNum x \<and> x < 18)"
  proof
    fix vals
    from inst [of vals]
    show "map_option message (validate_field zod3 vals ''age'') = Some ''Must be at least 18''
      \<longleftrightarrow> (\<exists>x. vals ''age'' = JNum x \<and> x < 18)"
      by (elim conjE)
  qed
  have d: "defaultValues ''age'' = JNull"
    by (simp add: defaultValues_def)
  have m: "invalid_type_message zod3 TNumber TNull = ''Expected number, received null''"
    "invalid_type_message zod3 TNumber TNan = ''Expected number, received nan''"
    by (simp_all add: zod3_def zod3_invalid_type_message_def)
  have n: "(defaultValues(''age'' := valueAsNumber None)) ''age'' = JNaN"
    by simp
  have null: "map_option message (validate_field zod3 defaultValues ''age'') =
      Some ''Expected number, received null''"
    using inst [of defaultValues] d m by simp
  have nan: "map_option message
      (validate_field zod3 (defaultValues(''age'' := valueAsNumber None)) ''age'') =
      Some ''Expected number, received nan''"
    using inst [of "defaultValues(''age'' := valueAsNumber None)"] n m by simp
  have low: "map_option message
      (validate_field zod3 (defaultValues(''age'' := valueAsNumber (Some 15))) ''age'') =
      Some ''Must be at least 18''"
    using iff by simp
  have ok: "validate_field zod3 (defaultValues(''age'' := valueAsNumber (Some 18))) ''age'' = None"
    by (simp add: validate_field_age first_issue_age)
  from h iff d null nan low ok show ?thesis
    by (intro conjI)
qed

end
